theory Spec2Isabelle
  imports Complex_Main "HOL-Library.Sublist"
begin

section \<open>Produced-film detection (execution/check\_produced\_film.py)\<close>

text \<open>
  Python strings are sequences of Unicode code points. Titles are modelled as lists of
  \<^typ>\<open>char\<close>, each read as the code point of the same number (0 to 255, the Latin-1
  range). The character classes below are those of Python 3 on that range:
  \<^verbatim>\<open>str.isspace\<close> and the regex class \<^verbatim>\<open>\s\<close>, the regex classes \<^verbatim>\<open>\w\<close> and
  \<^verbatim>\<open>\d\<close>, and \<^verbatim>\<open>str.lower\<close>, which on this range maps one character to one character.
\<close>

subsection \<open>Character classes\<close>

definition is_space :: "char \<Rightarrow> bool" where
  "is_space c = (of_char c \<in> {9, 10, 11, 12, 13, 28, 29, 30, 31, 32, 133, 160 :: nat})"

definition is_digit :: "char \<Rightarrow> bool" where
  "is_digit c = (let n = of_char c :: nat in 48 \<le> n \<and> n \<le> 57)"

definition is_word :: "char \<Rightarrow> bool" where
  "is_word c =
     (let n = of_char c :: nat in
        (48 \<le> n \<and> n \<le> 57) \<or> (65 \<le> n \<and> n \<le> 90) \<or> n = 95 \<or> (97 \<le> n \<and> n \<le> 122) \<or>
        n = 170 \<or> n = 178 \<or> n = 179 \<or> n = 181 \<or> n = 185 \<or> n = 186 \<or>
        (188 \<le> n \<and> n \<le> 190) \<or> (192 \<le> n \<and> n \<le> 214) \<or>
        (216 \<le> n \<and> n \<le> 246) \<or> (248 \<le> n \<and> n \<le> 255))"

definition lower_char :: "char \<Rightarrow> char" where
  "lower_char c =
     (let n = of_char c :: nat in
        if (65 \<le> n \<and> n \<le> 90) \<or> (192 \<le> n \<and> n \<le> 222 \<and> n \<noteq> 215)
        then char_of (n + 32) else c)"

definition lower :: "string \<Rightarrow> string" where
  "lower s = map lower_char s"

definition strip :: "string \<Rightarrow> string" where
  "strip s = rev (dropWhile is_space (rev (dropWhile is_space s)))"

subsection \<open>normalize\_title\<close>

text \<open>
  \<^verbatim>\<open>re.sub(r'\s*\(\d{4}\)\s*$', '', s)\<close>: the leftmost position from which the rest of the
  string is whitespace, a parenthesised four-digit number and whitespace; everything from
  there on is removed. \<open>year_tail\<close> says that a whole string has that shape.
\<close>

definition year_tail :: "string \<Rightarrow> bool" where
  "year_tail s =
     (case dropWhile is_space s of
        a # d1 # d2 # d3 # d4 # b # r \<Rightarrow>
          a = CHR ''('' \<and> is_digit d1 \<and> is_digit d2 \<and> is_digit d3 \<and> is_digit d4 \<and>
          b = CHR '')'' \<and> list_all is_space r
      | _ \<Rightarrow> False)"

fun remove_year :: "string \<Rightarrow> string" where
  "remove_year [] = []"
| "remove_year (c # cs) = (if year_tail (c # cs) then [] else c # remove_year cs)"

text \<open>\<^verbatim>\<open>re.sub(r"[^\w\s]", '', s)\<close>\<close>

definition remove_punctuation :: "string \<Rightarrow> string" where
  "remove_punctuation s = filter (\<lambda>c. is_word c \<or> is_space c) s"

text \<open>
  \<^verbatim>\<open>re.sub(r'^(the|a|an)\s+', '', s)\<close>: one of the three words at the very start,
  followed by at least one whitespace character; the word and all the whitespace after it
  are removed.
\<close>

definition article_at_start :: "string \<Rightarrow> string \<Rightarrow> bool" where
  "article_at_start art s =
     (prefix art s \<and> (case drop (length art) s of [] \<Rightarrow> False | c # _ \<Rightarrow> is_space c))"

definition remove_article :: "string \<Rightarrow> string" where
  "remove_article s =
     (if article_at_start ''the'' s then dropWhile is_space (drop 3 s)
      else if article_at_start ''a'' s then dropWhile is_space (drop 1 s)
      else if article_at_start ''an'' s then dropWhile is_space (drop 2 s)
      else s)"

text \<open>Whether a string starts with what that pattern matches.\<close>

definition leading_article :: "string \<Rightarrow> bool" where
  "leading_article s =
     (article_at_start ''the'' s \<or> article_at_start ''a'' s \<or> article_at_start ''an'' s)"

text \<open>\<^verbatim>\<open>re.sub(r'\s+', ' ', s)\<close>: every maximal run of whitespace becomes one space.\<close>

fun collapse_spaces :: "bool \<Rightarrow> string \<Rightarrow> string" where
  "collapse_spaces in_run [] = []"
| "collapse_spaces in_run (c # cs) =
     (if is_space c then (if in_run then collapse_spaces True cs
                          else CHR '' '' # collapse_spaces True cs)
      else c # collapse_spaces False cs)"

definition normalize_title :: "string \<Rightarrow> string" where
  "normalize_title title =
     (if title = [] then []
      else
        let normalized = strip (lower title);
            normalized = remove_year normalized;
            normalized = remove_punctuation normalized;
            normalized = remove_article normalized;
            normalized = strip (collapse_spaces False normalized)
        in normalized)"

subsection \<open>difflib.SequenceMatcher\<close>

text \<open>
  \<^verbatim>\<open>SequenceMatcher(None, a, b).ratio()\<close> of the Python standard library, with no junk
  predicate and \<^verbatim>\<open>autojunk\<close> at its default: when \<open>b\<close> has 200 characters or more, a
  character that makes up more than 1% of it (plus one) is ``popular'' and is left out of
  the index \<open>b2j\<close> from a character to its positions in \<open>b\<close>.
\<close>

definition bpopular :: "string \<Rightarrow> char \<Rightarrow> bool" where
  "bpopular b elt = (length b \<ge> 200 \<and> count_list b elt > length b div 100 + 1)"

definition b2j :: "string \<Rightarrow> char \<Rightarrow> nat list" where
  "b2j b elt = (if bpopular b elt then [] else filter (\<lambda>j. b ! j = elt) [0..<length b])"

text \<open>
  The inner loop of \<^verbatim>\<open>find_longest_match\<close> for one position \<open>i\<close> of \<open>a\<close>:
  \<^verbatim>\<open>
  for j in b2j.get(a[i], nothing):
      if j < blo: continue
      if j >= bhi: break
      k = newj2len[j] = j2lenget(j-1, 0) + 1
      if k > bestsize:
          besti, bestj, bestsize = i-k+1, j-k+1, k
  \<close>
  The dictionaries \<open>j2len\<close> and \<open>newj2len\<close> are functions with 0 for a missing key
  (every stored length is positive, and the key \<open>-1\<close> is never stored). A match of
  length \<open>k\<close> ending at \<open>i\<close> and \<open>j\<close> has \<open>k \<le> i + 1\<close> and \<open>k \<le> j + 1\<close>, so the
  subtractions stay in the natural numbers.
\<close>

fun match_row ::
  "nat \<Rightarrow> nat \<Rightarrow> nat \<Rightarrow> (nat \<Rightarrow> nat) \<Rightarrow> nat list \<Rightarrow>
   (nat \<Rightarrow> nat) \<times> nat \<times> nat \<times> nat \<Rightarrow> (nat \<Rightarrow> nat) \<times> nat \<times> nat \<times> nat" where
  "match_row i blo bhi j2len [] st = st"
| "match_row i blo bhi j2len (j # js) (newj2len, besti, bestj, bestsize) =
     (if j < blo then match_row i blo bhi j2len js (newj2len, besti, bestj, bestsize)
      else if j \<ge> bhi then (newj2len, besti, bestj, bestsize)
      else
        let k = (if j = 0 then 0 else j2len (j - 1)) + 1 in
        match_row i blo bhi j2len js
          (newj2len(j := k),
           if k > bestsize then (i + 1 - k, j + 1 - k, k) else (besti, bestj, bestsize)))"

text \<open>The outer loop, \<^verbatim>\<open>for i in range(alo, ahi)\<close>, ending with \<^verbatim>\<open>j2len = newj2len\<close>.\<close>

fun match_rows ::
  "string \<Rightarrow> string \<Rightarrow> nat \<Rightarrow> nat \<Rightarrow> nat list \<Rightarrow>
   (nat \<Rightarrow> nat) \<times> nat \<times> nat \<times> nat \<Rightarrow> nat \<times> nat \<times> nat" where
  "match_rows a b blo bhi [] (j2len, best) = best"
| "match_rows a b blo bhi (i # is) (j2len, best) =
     match_rows a b blo bhi is (match_row i blo bhi j2len (b2j b (a ! i)) (\<lambda>_. 0, best))"

text \<open>
  The two loops that extend the match over equal neighbours. With no junk predicate
  \<^verbatim>\<open>isbjunk\<close> is always false, so its test is left out here, and the two further loops
  of the source, which extend over junk only, never run.
\<close>

function extend_left :: "string \<Rightarrow> string \<Rightarrow> nat \<Rightarrow> nat \<Rightarrow> nat \<times> nat \<times> nat \<Rightarrow> nat \<times> nat \<times> nat" where
  "extend_left a b alo blo (besti, bestj, bestsize) =
     (if besti > alo \<and> bestj > blo \<and> a ! (besti - 1) = b ! (bestj - 1)
      then extend_left a b alo blo (besti - 1, bestj - 1, bestsize + 1)
      else (besti, bestj, bestsize))"
  by pat_completeness auto
termination
  by (relation "measure (\<lambda>(a, b, alo, blo, besti, bestj, bestsize). besti)") auto

function extend_right :: "string \<Rightarrow> string \<Rightarrow> nat \<Rightarrow> nat \<Rightarrow> nat \<times> nat \<times> nat \<Rightarrow> nat \<times> nat \<times> nat" where
  "extend_right a b ahi bhi (besti, bestj, bestsize) =
     (if besti + bestsize < ahi \<and> bestj + bestsize < bhi \<and>
         a ! (besti + bestsize) = b ! (bestj + bestsize)
      then extend_right a b ahi bhi (besti, bestj, bestsize + 1)
      else (besti, bestj, bestsize))"
  by pat_completeness auto
termination
  by (relation "measure (\<lambda>(a, b, ahi, bhi, besti, bestj, bestsize). ahi - (besti + bestsize))") auto

definition find_longest_match ::
  "string \<Rightarrow> string \<Rightarrow> nat \<Rightarrow> nat \<Rightarrow> nat \<Rightarrow> nat \<Rightarrow> nat \<times> nat \<times> nat" where
  "find_longest_match a b alo ahi blo bhi =
     extend_right a b ahi bhi
       (extend_left a b alo blo
          (match_rows a b blo bhi [alo..<ahi] (\<lambda>_. 0, alo, blo, 0)))"

text \<open>
  What the termination of \<^verbatim>\<open>get_matching_blocks\<close> rests on: a match of positive
  length starts before \<open>ahi\<close> and ends after \<open>alo\<close>; with no match the start stays at
  \<open>alo\<close>.
\<close>

definition best_ok :: "nat \<Rightarrow> nat \<Rightarrow> nat \<times> nat \<times> nat \<Rightarrow> bool" where
  "best_ok alo ahi best =
     (case best of (besti, bestj, bestsize) \<Rightarrow>
        if bestsize = 0 then besti = alo else besti < ahi \<and> alo < besti + bestsize)"

lemma match_row_best_ok:
  assumes "best_ok alo ahi best" and "alo \<le> i" and "i < ahi"
  shows "best_ok alo ahi (snd (match_row i blo bhi j2len js (new, best)))"
  using assms(1)
proof (induction js arbitrary: new best)
  case Nil
  then show ?case by simp
next
  case (Cons j js)
  obtain bi bj bs where best: "best = (bi, bj, bs)"
    by (cases best) auto
  define k where "k = (if j = 0 then 0 else j2len (j - 1)) + 1"
  have new_ok: "best_ok alo ahi (i + 1 - k, j + 1 - k, k)"
    using assms(2,3) by (auto simp: best_ok_def k_def)
  show ?case
    using Cons.IH [OF Cons.prems] Cons.IH [OF new_ok] Cons.prems
    by (simp add: best Let_def k_def)
qed

lemma match_rows_best_ok:
  assumes "best_ok alo ahi best" and "\<forall>i \<in> set is. alo \<le> i \<and> i < ahi"
  shows "best_ok alo ahi (match_rows a b blo bhi is (j2len, best))"
  using assms
proof (induction "is" arbitrary: j2len best)
  case Nil
  then show ?case by simp
next
  case (Cons i "is")
  obtain new best1 where
    row: "match_row i blo bhi j2len (b2j b (a ! i)) (\<lambda>_. 0, best) = (new, best1)"
    by (cases "match_row i blo bhi j2len (b2j b (a ! i)) (\<lambda>_. 0, best)") auto
  have "best_ok alo ahi best1"
    using match_row_best_ok [of alo ahi best i blo bhi j2len "b2j b (a ! i)" "\<lambda>_. 0"]
      Cons.prems row by simp
  then show ?case using Cons.IH Cons.prems(2) row by simp
qed

declare extend_left.simps [simp del] extend_right.simps [simp del]

lemma extend_left_best_ok:
  "best_ok alo ahi best \<Longrightarrow> best_ok alo ahi (extend_left a b alo blo best)"
proof (induction a b alo blo best rule: extend_left.induct)
  case (1 a b alo blo besti bestj bestsize)
  show ?case
  proof (cases "besti > alo \<and> bestj > blo \<and> a ! (besti - 1) = b ! (bestj - 1)")
    case True
    then have "best_ok alo ahi (besti - 1, bestj - 1, bestsize + 1)"
      using "1.prems" by (auto simp: best_ok_def split: if_splits)
    then have "best_ok alo ahi (extend_left a b alo blo (besti - 1, bestj - 1, bestsize + 1))"
      using "1.IH" True by blast
    then show ?thesis
      using True by (subst extend_left.simps) simp
  next
    case False
    then show ?thesis
      using "1.prems" by (subst extend_left.simps) auto
  qed
qed

lemma extend_right_best_ok:
  "best_ok alo ahi best \<Longrightarrow> best_ok alo ahi (extend_right a b ahi bhi best)"
proof (induction a b ahi bhi best rule: extend_right.induct)
  case (1 a b ahi bhi besti bestj bestsize)
  show ?case
  proof (cases "besti + bestsize < ahi \<and> bestj + bestsize < bhi \<and>
         a ! (besti + bestsize) = b ! (bestj + bestsize)")
    case True
    then have "best_ok alo ahi (besti, bestj, bestsize + 1)"
      using "1.prems" by (auto simp: best_ok_def split: if_splits)
    then have "best_ok alo ahi (extend_right a b ahi bhi (besti, bestj, bestsize + 1))"
      using "1.IH" True by blast
    then show ?thesis
      using True by (subst extend_right.simps) simp
  next
    case False
    then show ?thesis
      using "1.prems" by (subst extend_right.simps) auto
  qed
qed

lemma find_longest_match_best_ok:
  "best_ok alo ahi (find_longest_match a b alo ahi blo bhi)"
proof -
  have "best_ok alo ahi (alo, blo, 0)"
    by (simp add: best_ok_def)
  then have "best_ok alo ahi (match_rows a b blo bhi [alo..<ahi] (\<lambda>_. 0, alo, blo, 0))"
    by (rule match_rows_best_ok) simp
  then show ?thesis
    unfolding find_longest_match_def
    by (intro extend_right_best_ok extend_left_best_ok)
qed

lemma find_longest_match_bounds:
  "(i, j, k) = find_longest_match a b alo ahi blo bhi \<Longrightarrow> 0 < k \<Longrightarrow> i < ahi \<and> alo < i + k"
  using find_longest_match_best_ok [of alo ahi a b blo bhi] by (auto simp: best_ok_def)

text \<open>
  \<^verbatim>\<open>get_matching_blocks\<close>: the loop \<^verbatim>\<open>while queue:\<close>. The queue is a stack: its top
  is the head of the list, \<^verbatim>\<open>queue.pop()\<close> takes it, and of the two regions appended the
  right one, appended last, comes out first. The source then sorts the blocks and merges
  adjacent ones, which leaves the sum of their sizes as it is; \<open>ratio\<close> reads nothing else.
\<close>

function matching_blocks ::
  "string \<Rightarrow> string \<Rightarrow> (nat \<times> nat \<times> nat \<times> nat) list \<Rightarrow> (nat \<times> nat \<times> nat) list \<Rightarrow> (nat \<times> nat \<times> nat) list" where
  "matching_blocks a b [] blocks = blocks"
| "matching_blocks a b ((alo, ahi, blo, bhi) # queue) blocks =
     (case find_longest_match a b alo ahi blo bhi of
        (i, j, k) \<Rightarrow>
          if k \<noteq> 0 then
            matching_blocks a b
              ((if i + k < ahi \<and> j + k < bhi then [(i + k, ahi, j + k, bhi)] else []) @
               (if alo < i \<and> blo < j then [(alo, i, blo, j)] else []) @ queue)
              (blocks @ [(i, j, k)])
          else matching_blocks a b queue blocks)"
  by pat_completeness auto
termination
  apply (relation "measure (\<lambda>(a, b, queue, blocks).
          sum_list (map (\<lambda>(alo, ahi, blo, bhi). 2 * (ahi - alo) + 1) queue))")
    apply simp
  subgoal for a b alo ahi blo bhi queue blocks i jk j k
    using find_longest_match_bounds [of i j k a b alo ahi blo bhi]
    apply simp
    apply arith
    done
  subgoal for a b alo ahi blo bhi queue blocks i jk j k
    apply simp
    done
  done

definition get_matching_blocks :: "string \<Rightarrow> string \<Rightarrow> (nat \<times> nat \<times> nat) list" where
  "get_matching_blocks a b = matching_blocks a b [(0, length a, 0, length b)] []"

text \<open>
  \<^verbatim>\<open>ratio\<close> is \<^verbatim>\<open>2.0 * matches / length\<close>, and 1.0 for two empty strings. Python
  computes it in floating point; the model computes the exact quotient. Against the
  default threshold 0.85 the two agree: rounding is monotone, and a quotient \<open>2 * m / n\<close>
  other than 17/20 differs from it by at least \<open>1 / (20 * n)\<close>, far more than the rounding
  error of a double for any \<open>n\<close> that is the length of two titles.
\<close>

definition ratio :: "string \<Rightarrow> string \<Rightarrow> rat" where
  "ratio a b =
     (let matches = sum_list (map (\<lambda>(i, j, k). k) (get_matching_blocks a b));
          length = length a + length b
      in if length \<noteq> 0 then 2 * of_nat matches / of_nat length else 1)"

subsection \<open>is\_title\_match\<close>

text \<open>
  The threshold parameter has the default 0.85. Python's \<^verbatim>\<open>norm1 in norm2\<close> on strings is
  the substring test: \<open>sublist\<close>, a contiguous part of the list.
\<close>

definition default_threshold :: rat where
  "default_threshold = 85 / 100"

definition is_title_match :: "string \<Rightarrow> string \<Rightarrow> rat \<Rightarrow> bool" where
  "is_title_match screenplay_title tmdb_title threshold =
     (let norm1 = normalize_title screenplay_title;
          norm2 = normalize_title tmdb_title
      in if norm1 = [] \<or> norm2 = [] then False
         else if norm1 = norm2 then True
         else if sublist norm1 norm2 \<or> sublist norm2 norm1 then True
         else ratio norm1 norm2 \<ge> threshold)"

subsection \<open>JSON values, exceptions and the state of one run\<close>

text \<open>
  A \<^verbatim>\<open>datetime\<close> is a number of microseconds on the local clock, and
  \<^verbatim>\<open>timedelta(days=n)\<close> is \<open>n\<close> days of them. In a JSON value, \<open>JDate t\<close> stands for the
  string \<^verbatim>\<open>t.isoformat()\<close>, which \<^verbatim>\<open>datetime.fromisoformat\<close> reads back as \<open>t\<close>;
  \<open>JStr s\<close> is any other string, which \<^verbatim>\<open>fromisoformat\<close> rejects with a ValueError when
  it is asked to read it. A JSON object is an association list, read with \<^verbatim>\<open>.get\<close>.
\<close>

type_synonym datetime = int

definition timedelta_days :: "int \<Rightarrow> int" where
  "timedelta_days n = n * 86400000000"

definition CACHE_EXPIRY_DAYS :: int where
  "CACHE_EXPIRY_DAYS = 30"

definition PRODUCED_STATUSES :: "string set" where
  "PRODUCED_STATUSES = {''Released'', ''Post Production'', ''In Production''}"

datatype json = JNull | JBool bool | JInt int | JStr string | JDate datetime

type_synonym jdict = "(string \<times> json) list"

text \<open>Python's truth value of a JSON value, as \<^verbatim>\<open>if checked_at:\<close> reads it.\<close>

fun truthy :: "json \<Rightarrow> bool" where
  "truthy JNull = False"
| "truthy (JBool b) = b"
| "truthy (JInt n) = (n \<noteq> 0)"
| "truthy (JStr s) = (s \<noteq> [])"
| "truthy (JDate t) = True"

definition dict_get :: "jdict \<Rightarrow> string \<Rightarrow> json \<Rightarrow> json" where
  "dict_get d key fallback = (case map_of d key of None \<Rightarrow> fallback | Some v \<Rightarrow> v)"

text \<open>
  The exceptions of the run, by class. \<open>ConnectError\<close>, \<open>TimeoutException\<close> and
  \<open>HTTPStatusError\<close> (with the response's status code) are httpx's; \<open>ConnectionError\<close>,
  \<open>TimeoutError\<close>, \<open>ValueError\<close> and \<open>TypeError\<close> are built in; \<open>OtherException\<close> is any
  exception outside these classes.
\<close>

datatype exn =
    ConnectError
  | TimeoutException
  | HTTPStatusError int
  | ConnectionError
  | TimeoutError
  | ValueError
  | TypeError
  | OtherException string

text \<open>\<^verbatim>\<open>isinstance(e, RETRYABLE_EXCEPTIONS)\<close>, the test of \<^verbatim>\<open>retry_if_exception_type\<close>.\<close>

fun RETRYABLE_EXCEPTIONS :: "exn \<Rightarrow> bool" where
  "RETRYABLE_EXCEPTIONS ConnectError = True"
| "RETRYABLE_EXCEPTIONS TimeoutException = True"
| "RETRYABLE_EXCEPTIONS (HTTPStatusError status_code) = True"
| "RETRYABLE_EXCEPTIONS ConnectionError = True"
| "RETRYABLE_EXCEPTIONS TimeoutError = True"
| "RETRYABLE_EXCEPTIONS e = False"

text \<open>
  The messages the module logs at the default level and above (\<^verbatim>\<open>logger.debug\<close> calls are
  left out), one constructor for each call; the last is the \<^verbatim>\<open>before_sleep_log\<close> of the
  retry decorator.
\<close>

datatype log_record =
    Info_searching string
  | Error_search_failed exn
  | Warning_details_failed string exn
  | Exception_unexpected exn
  | Warning_retrying exn

text \<open>
  The state a run reads and changes: the cache dictionary (its \<open>entries\<close> by normalized
  title and the \<open>last_updated\<close> stamp that \<^verbatim>\<open>save_cache\<close> sets), which \<^verbatim>\<open>save_cache\<close>
  writes to the cache file as it is; the number of HTTP requests sent so far; and the log.
  Reading and writing the cache file are taken to succeed.
\<close>

record world =
  entries :: "string \<rightharpoonup> jdict"
  last_updated :: "datetime option"
  requests :: nat
  log :: "log_record list"

definition save_cache :: "datetime \<Rightarrow> world \<Rightarrow> world" where
  "save_cache now w = w\<lparr>last_updated := Some now\<rparr>"

text \<open>
  \<^verbatim>\<open>cache.setdefault("entries", {})[normalize_title(title)] = entry\<close> followed by
  \<^verbatim>\<open>save_cache(cache)\<close>.
\<close>

definition store_entry :: "datetime \<Rightarrow> string \<Rightarrow> jdict \<Rightarrow> world \<Rightarrow> world" where
  "store_entry now title entry w =
     save_cache now (w\<lparr>entries := (entries w)(normalize_title title \<mapsto> entry)\<rparr>)"

subsection \<open>get\_cached\_result\<close>

definition fromisoformat :: "json \<Rightarrow> exn + datetime" where
  "fromisoformat v =
     (case v of JDate t \<Rightarrow> Inr t | JStr s \<Rightarrow> Inl ValueError | _ \<Rightarrow> Inl TypeError)"

definition get_cached_result :: "datetime \<Rightarrow> string \<Rightarrow> world \<Rightarrow> exn + jdict option" where
  "get_cached_result now title cache =
     (let normalized = normalize_title title in
      case entries cache normalized of
        None \<Rightarrow> Inr None
      | Some entry \<Rightarrow>
          let checked_at = dict_get entry ''checked_at'' JNull in
          if truthy checked_at then
            (case fromisoformat checked_at of
               Inl e \<Rightarrow> Inl e
             | Inr checked_date \<Rightarrow>
                 if now - checked_date > timedelta_days CACHE_EXPIRY_DAYS then Inr None
                 else Inr (Some entry))
          else Inr (Some entry))"

subsection \<open>The TMDB client: search\_tmdb and get\_movie\_details\<close>

text \<open>
  A search result carries the three fields the module reads: \<^verbatim>\<open>result.get("title", "")\<close>,
  \<^verbatim>\<open>result.get("release_date", "")\<close> (a missing field is the empty string) and
  \<^verbatim>\<open>result.get("id")\<close>.
\<close>

record search_result =
  result_title :: string
  result_release_date :: string
  result_id :: "int option"

text \<open>
  The service is what answers: \<open>search_movie n title\<close> is what the \<open>n\<close>-th HTTP request of
  the run gets when it is \<^verbatim>\<open>GET /search/movie\<close> for \<open>title\<close>, and \<open>movie n id\<close> when it is
  \<^verbatim>\<open>GET /movie/{id}\<close>: an exception raised by \<^verbatim>\<open>client.get\<close>, or a status code with the
  decoded body (the \<^verbatim>\<open>results\<close> list; the \<^verbatim>\<open>status\<close> field of the details, if any).
\<close>

record tmdb =
  search_movie :: "nat \<Rightarrow> string \<Rightarrow> exn + int \<times> search_result list"
  movie :: "nat \<Rightarrow> int option \<Rightarrow> exn + int \<times> string option"

text \<open>
  \<^verbatim>\<open>response.raise_for_status()\<close>: in current versions of httpx it raises
  \<open>HTTPStatusError\<close> for every status code outside 200 to 299.
\<close>

definition raise_for_status :: "int \<times> 'a \<Rightarrow> exn + 'a" where
  "raise_for_status response =
     (case response of (status_code, body) \<Rightarrow>
        if 200 \<le> status_code \<and> status_code \<le> 299 then Inr body
        else Inl (HTTPStatusError status_code))"

text \<open>One call of the undecorated function: the request, then \<^verbatim>\<open>raise_for_status\<close>.\<close>

definition search_tmdb_call :: "tmdb \<Rightarrow> string \<Rightarrow> nat \<Rightarrow> exn + search_result list" where
  "search_tmdb_call api title n =
     (case search_movie api n title of Inl e \<Rightarrow> Inl e | Inr response \<Rightarrow> raise_for_status response)"

definition get_movie_details_call :: "tmdb \<Rightarrow> int option \<Rightarrow> nat \<Rightarrow> exn + string option" where
  "get_movie_details_call api movie_id n =
     (case movie api n movie_id of Inl e \<Rightarrow> Inl e | Inr response \<Rightarrow> raise_for_status response)"

text \<open>
  The decorator \<^verbatim>\<open>@retry(retry=retry_if_exception_type(RETRYABLE_EXCEPTIONS),
  stop=stop_after_attempt(3), before_sleep=before_sleep_log(...), reraise=True)\<close>: call;
  on an exception of a retryable class, unless this was attempt 3, log, sleep and call
  again; any other exception, and the exception of the last attempt, is raised to the
  caller. \<open>call n\<close> is the function's outcome when its request is the \<open>n\<close>-th of the run.
\<close>

definition stop_after_attempt :: nat where
  "stop_after_attempt = 3"

function retry :: "(nat \<Rightarrow> exn + 'a) \<Rightarrow> nat \<Rightarrow> world \<Rightarrow> (exn + 'a) \<times> world" where
  "retry call attempt_number w =
     (let outcome = call (requests w);
          w = w\<lparr>requests := requests w + 1\<rparr>
      in case outcome of
           Inr v \<Rightarrow> (Inr v, w)
         | Inl e \<Rightarrow>
             if RETRYABLE_EXCEPTIONS e \<and> attempt_number < stop_after_attempt
             then retry call (attempt_number + 1) (w\<lparr>log := log w @ [Warning_retrying e]\<rparr>)
             else (Inl e, w))"
  by pat_completeness auto
termination
  by (relation "measure (\<lambda>(call, attempt_number, w). stop_after_attempt - attempt_number)") auto

declare retry.simps [simp del]

definition search_tmdb :: "tmdb \<Rightarrow> string \<Rightarrow> world \<Rightarrow> (exn + search_result list) \<times> world" where
  "search_tmdb api title w = retry (search_tmdb_call api title) 1 w"

definition get_movie_details :: "tmdb \<Rightarrow> int option \<Rightarrow> world \<Rightarrow> (exn + string option) \<times> world" where
  "get_movie_details api movie_id w = retry (get_movie_details_call api movie_id) 1 w"

subsection \<open>The release year of a search result\<close>

text \<open>
  \<^verbatim>\<open>int(release_date.split("-")[0])\<close>. The first piece of the split is the text before
  the first hyphen. \<^verbatim>\<open>int\<close> of a string skips whitespace at both ends, takes an optional
  sign, and then needs decimal digits, where single underscores may stand between two
  digits; anything else is a ValueError (\<open>None\<close> here), and so is a number of more than
  4300 digits, the interpreter's default limit. The whitespace \<^verbatim>\<open>int\<close> skips is that of
  \<open>is_space\<close> without the four separators 28 to 31.
\<close>

definition int_space :: "char \<Rightarrow> bool" where
  "int_space c = (of_char c \<in> {9, 10, 11, 12, 13, 32, 133, 160 :: nat})"

fun digits_ok :: "string \<Rightarrow> bool" where
  "digits_ok [] = False"
| "digits_ok [c] = is_digit c"
| "digits_ok (c # d # cs) =
     (is_digit c \<and> (if d = CHR ''_'' then digits_ok cs else digits_ok (d # cs)))"

definition digit_value :: "char \<Rightarrow> int" where
  "digit_value c = int (of_char c) - 48"

definition decimal :: "string \<Rightarrow> int" where
  "decimal ds = foldl (\<lambda>acc c. 10 * acc + digit_value c) 0 (filter is_digit ds)"

definition INT_MAX_STR_DIGITS :: nat where
  "INT_MAX_STR_DIGITS = 4300"

definition py_int :: "string \<Rightarrow> int option" where
  "py_int s =
     (let t = rev (dropWhile int_space (rev (dropWhile int_space s)));
          (negative, ds) =
            (case t of
               [] \<Rightarrow> (False, [])
             | c # r \<Rightarrow>
                 if c = CHR ''-'' then (True, r)
                 else if c = CHR ''+'' then (False, r)
                 else (False, t))
      in if digits_ok ds \<and> length (filter is_digit ds) \<le> INT_MAX_STR_DIGITS
         then Some (if negative then - decimal ds else decimal ds)
         else None)"

definition release_year :: "string \<Rightarrow> int option" where
  "release_year release_date = py_int (takeWhile (\<lambda>c. c \<noteq> CHR ''-'') release_date)"

text \<open>
  The year filter of the loop:
  \<^verbatim>\<open>
  if year_context and release_date:
      try:
          release_year = int(release_date.split("-")[0])
          if release_year < year_context:
              continue
      except (ValueError, IndexError):
          pass
  \<close>
  \<open>released_before\<close> holds exactly when the \<^verbatim>\<open>continue\<close> is reached.
\<close>

definition released_before :: "string \<Rightarrow> int option \<Rightarrow> bool" where
  "released_before release_date year_context =
     (case year_context of
        None \<Rightarrow> False
      | Some context_year \<Rightarrow>
          context_year \<noteq> 0 \<and> release_date \<noteq> [] \<and>
          (case release_year release_date of
             None \<Rightarrow> False
           | Some year \<Rightarrow> year < context_year))"

subsection \<open>check\_if\_produced\<close>

text \<open>
  The status of one matching result:
  \<^verbatim>\<open>
  try:
      details = get_movie_details(movie_id, api_key)
      status = details.get("status", "Unknown")
  except Exception as e:
      logger.warning(f"Failed to get details for {tmdb_title}: {e}")
      # If we have a release date, assume it's released
      status = "Released" if release_date else "Unknown"
  \<close>
\<close>

definition detailed_status :: "tmdb \<Rightarrow> search_result \<Rightarrow> world \<Rightarrow> string \<times> world" where
  "detailed_status api result w =
     (case get_movie_details api (result_id result) w of
        (Inr details, w) \<Rightarrow> (case details of None \<Rightarrow> ''Unknown'' | Some status \<Rightarrow> status, w)
      | (Inl e, w) \<Rightarrow>
          (if result_release_date result \<noteq> [] then ''Released'' else ''Unknown'',
           w\<lparr>log := log w @ [Warning_details_failed (result_title result) e]\<rparr>))"

text \<open>
  The loop \<^verbatim>\<open>for result in results:\<close>. It ends with the first result whose status is
  one of \<open>PRODUCED_STATUSES\<close>, which it returns with that status, or with \<open>None\<close> after the
  last result.
\<close>

fun check_results ::
  "tmdb \<Rightarrow> string \<Rightarrow> int option \<Rightarrow> search_result list \<Rightarrow> world \<Rightarrow>
   (search_result \<times> string) option \<times> world" where
  "check_results api title year_context [] w = (None, w)"
| "check_results api title year_context (result # results) w =
     (if \<not> is_title_match title (result_title result) default_threshold
      then check_results api title year_context results w
      else if released_before (result_release_date result) year_context
      then check_results api title year_context results w
      else
        case detailed_status api result w of
          (status, w) \<Rightarrow>
            if status \<in> PRODUCED_STATUSES then (Some (result, status), w)
            else check_results api title year_context results w)"

text \<open>Python's \<^verbatim>\<open>str\<close> of a natural number, for \<^verbatim>\<open>{len(results)}\<close>.\<close>

function str_nat :: "nat \<Rightarrow> string" where
  "str_nat n = (if n < 10 then [char_of (48 + n)] else str_nat (n div 10) @ [char_of (48 + n mod 10)])"
  by pat_completeness auto
termination
  by (relation "measure id") auto

declare str_nat.simps [simp del]

text \<open>
  The reason strings are f-strings; each is a constructor here, with the values the
  f-string interpolates: \<^verbatim>\<open>CACHED: {title} ({release_date}) - {status}\<close>,
  \<^verbatim>\<open>ERROR: TMDB search failed - {e}\<close>, \<^verbatim>\<open>NOT PRODUCED: No matching films found\<close>,
  \<^verbatim>\<open>PRODUCED: {tmdb_title} ({release_date or 'N/A'}) - {status}\<close> and
  \<^verbatim>\<open>NOT PRODUCED: No matching produced films (checked {len(results)} results)\<close>.
  The third component of the result is a cache entry or, after a failed search, the
  dictionary \<^verbatim>\<open>{"error": str(e)}\<close>.

  \<open>check_if_produced\<close> takes the time \<^verbatim>\<open>datetime.now()\<close> returns during the call and the
  state with the cache (loaded by \<^verbatim>\<open>load_cache\<close> when the caller passes none). The API
  key only travels into the requests and is not a parameter here. \<^verbatim>\<open>if cached:\<close> is
  false for \<open>None\<close> and for the empty dictionary.
\<close>

datatype reason =
    CACHED json json json
  | ERROR_search_failed exn
  | NOT_PRODUCED_no_films
  | PRODUCED string string string
  | NOT_PRODUCED_none_qualified nat

datatype details = Entry jdict | Error_details exn

type_synonym decision = "json \<times> reason \<times> details"

definition check_if_produced ::
  "tmdb \<Rightarrow> datetime \<Rightarrow> string \<Rightarrow> int option \<Rightarrow> world \<Rightarrow> (exn + decision) \<times> world" where
  "check_if_produced api now title year_context cache =
     (case get_cached_result now title cache of
        Inl e \<Rightarrow> (Inl e, cache)
      | Inr cached \<Rightarrow>
          (case (case cached of None \<Rightarrow> None | Some c \<Rightarrow> if c \<noteq> [] then Some c else None) of
             Some cached \<Rightarrow>
               (Inr (dict_get cached ''is_produced'' (JBool False),
                     CACHED (dict_get cached ''title'' (JStr ''Unknown''))
                            (dict_get cached ''release_date'' (JStr ''N/A''))
                            (dict_get cached ''status'' (JStr ''Unknown'')),
                     Entry cached),
                cache)
           | None \<Rightarrow>
               (case search_tmdb api title (cache\<lparr>log := log cache @ [Info_searching title]\<rparr>) of
                  (Inl e, w) \<Rightarrow>
                    (Inr (JBool False, ERROR_search_failed e, Error_details e),
                     w\<lparr>log := log w @ [Error_search_failed e]\<rparr>)
                | (Inr results, w) \<Rightarrow>
                    if results = [] then
                      (let entry =
                         [(''is_produced'', JBool False),
                          (''tmdb_id'', JNull),
                          (''title'', JNull),
                          (''release_date'', JNull),
                          (''status'', JNull),
                          (''checked_at'', JDate now),
                          (''confidence'', JStr ''high'')]
                       in (Inr (JBool False, NOT_PRODUCED_no_films, Entry entry),
                           store_entry now title entry w))
                    else
                      (case check_results api title year_context results w of
                         (Some (result, status), w) \<Rightarrow>
                           (let entry =
                              [(''is_produced'', JBool True),
                               (''tmdb_id'', case result_id result of None \<Rightarrow> JNull | Some i \<Rightarrow> JInt i),
                               (''title'', JStr (result_title result)),
                               (''release_date'', JStr (result_release_date result)),
                               (''status'', JStr status),
                               (''checked_at'', JDate now),
                               (''confidence'', JStr ''high'')]
                            in (Inr (JBool True,
                                     PRODUCED (result_title result)
                                       (if result_release_date result \<noteq> []
                                        then result_release_date result else ''N/A'')
                                       status,
                                     Entry entry),
                                store_entry now title entry w))
                       | (None, w) \<Rightarrow>
                           (let entry =
                              [(''is_produced'', JBool False),
                               (''tmdb_id'', JNull),
                               (''title'', JNull),
                               (''release_date'', JNull),
                               (''status'', JNull),
                               (''checked_at'', JDate now),
                               (''confidence'', JStr ''medium''),
                               (''note'', JStr (''Found '' @ str_nat (length results) @
                                                '' results but none matched criteria''))]
                            in (Inr (JBool False,
                                     NOT_PRODUCED_none_qualified (length results),
                                     Entry entry),
                                store_entry now title entry w))))))"

subsection \<open>main\<close>

text \<open>
  The command line gives the title and the optional year context; the environment gives
  the API key; the override file gives two lists of titles (a missing list is empty).
  \<open>main\<close> returns the exit code. What it prints is left out, and so is \<^verbatim>\<open>--verbose\<close>,
  which only lowers the log level.
\<close>

record overrides =
  force_analyze :: "string list"
  force_skip :: "string list"

definition main ::
  "tmdb \<Rightarrow> datetime \<Rightarrow> string option \<Rightarrow> overrides \<Rightarrow> string \<Rightarrow> int option \<Rightarrow> world \<Rightarrow> int \<times> world" where
  "main api now api_key overrides title year_context w =
     (if api_key = None \<or> api_key = Some [] then (2, w)
      else
        let normalized_title = normalize_title title in
        if list_ex (\<lambda>force_title. normalize_title force_title = normalized_title)
             (force_analyze overrides)
        then (0, w)
        else if list_ex (\<lambda>force_title. normalize_title force_title = normalized_title)
                  (force_skip overrides)
        then (1, w)
        else
          case check_if_produced api now title year_context w of
            (Inr (is_produced, reason, details), w) \<Rightarrow> (if truthy is_produced then 1 else 0, w)
          | (Inl e, w) \<Rightarrow> (2, w\<lparr>log := log w @ [Exception_unexpected e]\<rparr>))"

subsection \<open>Names for what the statements below speak of\<close>

text \<open>
  The shape of a normalized title: it neither starts nor ends with whitespace
  (\<open>trimmed\<close>); its whitespace is single spaces (\<open>single_spaced\<close>, with \<open>in_run\<close> set when
  the character before was whitespace); and each of its characters is a word character in
  lower case or a space (\<open>normal_char\<close>).
\<close>

definition trimmed :: "string \<Rightarrow> bool" where
  "trimmed s = (s = [] \<or> (\<not> is_space (hd s) \<and> \<not> is_space (last s)))"

fun single_spaced :: "bool \<Rightarrow> string \<Rightarrow> bool" where
  "single_spaced in_run [] = True"
| "single_spaced in_run (c # cs) =
     (if is_space c then \<not> in_run \<and> c = CHR '' '' \<and> single_spaced True cs
      else single_spaced False cs)"

definition normal_char :: "char \<Rightarrow> bool" where
  "normal_char c = ((is_word c \<or> c = CHR '' '') \<and> lower_char c = c)"

text \<open>
  A lookup that leaves \<^verbatim>\<open>if cached:\<close> false, so that the search goes ahead: no entry,
  an expired one, or an entry that is the empty dictionary.
\<close>

definition cache_miss :: "datetime \<Rightarrow> string \<Rightarrow> world \<Rightarrow> bool" where
  "cache_miss now title cache =
     (get_cached_result now title cache = Inr None \<or>
      get_cached_result now title cache = Inr (Some []))"

text \<open>The two negative entries \<open>check_if_produced\<close> writes, as its dictionary literals.\<close>

definition no_films_entry :: "datetime \<Rightarrow> jdict" where
  "no_films_entry now =
     [(''is_produced'', JBool False),
      (''tmdb_id'', JNull),
      (''title'', JNull),
      (''release_date'', JNull),
      (''status'', JNull),
      (''checked_at'', JDate now),
      (''confidence'', JStr ''high'')]"


subsection \<open>Example services and states\<close>

text \<open>
  Concrete inputs for the example runs below: a run that starts with an empty cache and
  no request sent, and a service that answers every request with one status code and an
  empty body.
\<close>

definition idle :: world where
  "idle = \<lparr>entries = Map.empty, last_updated = None, requests = 0, log = []\<rparr>"

definition always_status :: "int \<Rightarrow> tmdb" where
  "always_status status_code =
     \<lparr>search_movie = (\<lambda>n title. Inr (status_code, [])),
      movie = (\<lambda>n movie_id. Inr (status_code, None))\<rparr>"

text \<open>
  A service that cannot be reached; one whose search answers with the given results and
  whose details cannot be fetched; a search result titled ``Juno'' with a given release
  date; a run whose cache holds one entry, for ``Juno''; and an override file without
  titles.
\<close>

definition unreachable :: tmdb where
  "unreachable =
     \<lparr>search_movie = (\<lambda>n title. Inl ConnectError),
      movie = (\<lambda>n movie_id. Inl ConnectError)\<rparr>"


definition juno :: "string \<Rightarrow> search_result" where
  "juno release_date =
     \<lparr>result_title = ''Juno'', result_release_date = release_date, result_id = Some 7326\<rparr>"

definition cached_juno :: "jdict \<Rightarrow> world" where
  "cached_juno entry = idle\<lparr>entries := [''juno'' \<mapsto> entry]\<rparr>"

definition no_overrides :: overrides where
  "no_overrides = \<lparr>force_analyze = [], force_skip = []\<rparr>"

section \<open>Properties of title normalization\<close>

lemma of_char_lower_char:
  "(of_char (lower_char c) :: nat) =
     (let n = of_char c in
        if (65 \<le> n \<and> n \<le> 90) \<or> (192 \<le> n \<and> n \<le> 222 \<and> n \<noteq> 215) then n + 32 else n)"
  by (auto simp: lower_char_def Let_def)

lemma lower_char_idem: "lower_char (lower_char c) = lower_char c"
proof -
  have "(of_char (lower_char (lower_char c)) :: nat) = of_char (lower_char c)"
    by (simp add: of_char_lower_char Let_def)
  then show ?thesis by simp
qed

lemma lower_char_space: "lower_char (CHR '' '') = CHR '' ''"
  by (simp add: lower_char_def)

lemma is_space_space: "is_space (CHR '' '')"
  by (simp add: is_space_def)

lemma not_word_paren: "\<not> is_word (CHR ''('')" "\<not> is_space (CHR ''('')"
  by (simp_all add: is_word_def is_space_def)

text \<open>What \<open>strip\<close> returns is \<open>trimmed\<close>, and \<open>strip\<close> leaves a trimmed string alone.\<close>

lemma trimmed_strip_id: "trimmed s \<Longrightarrow> strip s = s"
proof (cases s)
  case Nil
  then show ?thesis by (simp add: strip_def)
next
  case (Cons c cs)
  assume "trimmed s"
  with Cons have h: "\<not> is_space (hd s)" and l: "\<not> is_space (last s)"
    by (auto simp: trimmed_def)
  from h Cons have 1: "dropWhile is_space s = s" by simp
  from l Cons have "dropWhile is_space (rev s) = rev s"
    by (cases "rev s") (auto simp: hd_rev [symmetric] simp del: hd_rev)
  with 1 show ?thesis by (simp add: strip_def)
qed

lemma trimmed_strip: "trimmed (strip s)"
proof -
  define v where "v = dropWhile is_space s"
  define r where "r = dropWhile is_space (rev v)"
  have u: "strip s = rev r" by (simp add: strip_def v_def r_def)
  show ?thesis
  proof (cases "r = []")
    case True
    with u show ?thesis by (simp add: trimmed_def)
  next
    case False
    then have hr: "\<not> is_space (hd r)"
      unfolding r_def by (metis hd_dropWhile)
    have "\<exists>p. rev v = p @ r" unfolding r_def
      by (metis takeWhile_dropWhile_id)
    then obtain p where p: "rev v = p @ r" ..
    have vne: "v \<noteq> []" using p False by auto
    from p False have "last r = last (rev v)" by simp
    also have "\<dots> = hd v" using vne by (simp add: last_rev)
    finally have lr: "last r = hd v" .
    from vne have "\<not> is_space (hd v)" unfolding v_def by (metis hd_dropWhile)
    with lr hr False u show ?thesis
      by (simp add: trimmed_def hd_rev last_rev)
  qed
qed

lemma set_strip: "set (strip s) \<subseteq> set s"
proof -
  have "set (strip s) = set (dropWhile is_space (rev (dropWhile is_space s)))"
    by (simp add: strip_def)
  also have "\<dots> \<subseteq> set (rev (dropWhile is_space s))"
    by (meson set_dropWhileD subsetI)
  also have "\<dots> \<subseteq> set s"
    by (auto dest: set_dropWhileD)
  finally show ?thesis .
qed

text \<open>Without an opening parenthesis there is no year to remove.\<close>

lemma year_tail_paren: "year_tail s \<Longrightarrow> CHR ''('' \<in> set s"
proof -
  assume y: "year_tail s"
  then obtain r where "dropWhile is_space s = CHR ''('' # r"
    by (auto simp: year_tail_def split: list.splits)
  then have "CHR ''('' \<in> set (dropWhile is_space s)" by simp
  then show ?thesis by (rule set_dropWhileD)
qed

lemma remove_year_id: "CHR ''('' \<notin> set s \<Longrightarrow> remove_year s = s"
proof (induction s)
  case Nil
  then show ?case by simp
next
  case (Cons c cs)
  then have "\<not> year_tail (c # cs)" using year_tail_paren by blast
  with Cons show ?case by simp
qed

lemma set_remove_year: "set (remove_year s) \<subseteq> set s"
  by (induction s) auto

lemma set_remove_article: "set (remove_article s) \<subseteq> set s"
  by (auto simp: remove_article_def dest: set_dropWhileD in_set_dropD)

text \<open>What \<open>collapse_spaces\<close> returns is \<open>single_spaced\<close>, and it leaves such a string alone.\<close>

lemma single_spaced_collapse_id: "single_spaced b s \<Longrightarrow> collapse_spaces b s = s"
  by (induction s arbitrary: b) (auto split: if_splits)

lemma single_spaced_collapse: "(b' \<longrightarrow> b) \<Longrightarrow> single_spaced b' (collapse_spaces b s)"
  by (induction s arbitrary: b b') (auto simp: is_space_space)

lemma single_spaced_weaken: "single_spaced b s \<Longrightarrow> single_spaced False s"
  by (cases s) (auto split: if_splits)

lemma single_spaced_append_left: "single_spaced b (xs @ ys) \<Longrightarrow> single_spaced b xs"
  by (induction xs arbitrary: b) (auto split: if_splits)

lemma single_spaced_append_right: "single_spaced b (xs @ ys) \<Longrightarrow> single_spaced False ys"
proof (induction xs arbitrary: b)
  case Nil
  then show ?case by (simp add: single_spaced_weaken)
next
  case (Cons x xs)
  then show ?case by (auto split: if_splits)
qed

lemma single_spaced_strip: "single_spaced False s \<Longrightarrow> single_spaced False (strip s)"
proof -
  assume s: "single_spaced False s"
  define v where "v = dropWhile is_space s"
  have "s = takeWhile is_space s @ v" by (simp add: v_def)
  with s have v: "single_spaced False v"
    by (metis single_spaced_append_right)
  have "rev v = takeWhile is_space (rev v) @ dropWhile is_space (rev v)" by simp
  then have "v = rev (dropWhile is_space (rev v)) @ rev (takeWhile is_space (rev v))"
    by (metis rev_append rev_rev_ident)
  with v have "single_spaced False (rev (dropWhile is_space (rev v)))"
    by (metis single_spaced_append_left)
  then show ?thesis by (simp add: strip_def v_def)
qed

lemma set_collapse: "set (collapse_spaces b s) \<subseteq> insert (CHR '' '') {c \<in> set s. \<not> is_space c}"
  by (induction s arbitrary: b) auto


lemma normalize_title_unfold:
  "title \<noteq> [] \<Longrightarrow> normalize_title title =
     strip (collapse_spaces False (remove_article (remove_punctuation
       (remove_year (strip (lower title))))))"
  by (simp add: normalize_title_def)

lemma normalize_title_chars:
  assumes "c \<in> set (normalize_title title)"
  shows "normal_char c"
proof (cases "title = []")
  case True
  with assms show ?thesis by (simp add: normalize_title_def)
next
  case False
  define w where "w = remove_year (strip (lower title))"
  define z where "z = remove_article (remove_punctuation w)"
  from False assms have "c \<in> set (strip (collapse_spaces False z))"
    by (simp add: normalize_title_unfold z_def w_def)
  then have "c \<in> set (collapse_spaces False z)"
    using set_strip by blast
  then have "c = CHR '' '' \<or> (c \<in> set z \<and> \<not> is_space c)"
    using set_collapse [of False z] by auto
  then show ?thesis
  proof
    assume "c = CHR '' ''"
    then show ?thesis by (simp add: normal_char_def lower_char_space)
  next
    assume cz: "c \<in> set z \<and> \<not> is_space c"
    then have cp: "c \<in> set (remove_punctuation w)"
      unfolding z_def using set_remove_article by blast
    then have word: "is_word c" using cz by (simp add: remove_punctuation_def)
    from cp have "c \<in> set w" by (simp add: remove_punctuation_def)
    then have "c \<in> set (strip (lower title))"
      unfolding w_def using set_remove_year by blast
    then have "c \<in> set (lower title)" using set_strip by blast
    then obtain d where "c = lower_char d" by (auto simp: lower_def)
    then have "lower_char c = c" by (simp add: lower_char_idem)
    with word show ?thesis by (simp add: normal_char_def)
  qed
qed

lemma normalize_title_trimmed: "trimmed (normalize_title title)"
  by (cases "title = []") (simp_all add: normalize_title_unfold trimmed_strip, simp add: normalize_title_def trimmed_def)

lemma normalize_title_single_spaced: "single_spaced False (normalize_title title)"
proof (cases "title = []")
  case True
  then show ?thesis by (simp add: normalize_title_def)
next
  case False
  then show ?thesis
    by (simp add: normalize_title_unfold single_spaced_strip single_spaced_collapse)
qed

lemma normalize_title_of_normal:
  assumes chars: "\<forall>c \<in> set y. normal_char c"
    and tr: "trimmed y" and sp: "single_spaced False y" and ne: "y \<noteq> []"
  shows "normalize_title y = strip (collapse_spaces False (remove_article y))"
proof -
  have 1: "lower y = y"
    unfolding lower_def using chars by (simp add: map_idI normal_char_def)
  have 2: "strip y = y" using tr by (rule trimmed_strip_id)
  have "CHR ''('' \<notin> set y"
    using chars not_word_paren by (auto simp: normal_char_def)
  then have 3: "remove_year y = y" by (rule remove_year_id)
  have 4: "remove_punctuation y = y"
    unfolding remove_punctuation_def using chars is_space_space
    by (auto simp: normal_char_def intro!: filter_True)
  show ?thesis
    using ne by (simp add: normalize_title_unfold 1 2 3 4)
qed

lemma length_strip: "length (strip s) \<le> length s"
proof -
  have "length (strip s) = length (dropWhile is_space (rev (dropWhile is_space s)))"
    by (simp add: strip_def)
  also have "\<dots> \<le> length (rev (dropWhile is_space s))"
    by (rule length_dropWhile_le)
  also have "\<dots> = length (dropWhile is_space s)" by simp
  also have "\<dots> \<le> length s" by (rule length_dropWhile_le)
  finally show ?thesis .
qed

lemma length_collapse_spaces: "length (collapse_spaces b s) \<le> length s"
  by (induction s arbitrary: b) (auto simp: le_SucI)

lemma length_after_article:
  assumes "article_at_start art s" and "art \<noteq> []"
  shows "length (dropWhile is_space (drop (length art) s)) < length s"
proof -
  from assms(1) have "drop (length art) s \<noteq> []"
    by (auto simp: article_at_start_def split: list.splits)
  then have "length art < length s" by simp
  have "length (dropWhile is_space (drop (length art) s)) \<le> length (drop (length art) s)"
    by (rule length_dropWhile_le)
  also have "\<dots> < length s"
    using assms(2) \<open>length art < length s\<close> by (cases art) simp_all
  finally show ?thesis .
qed

lemma length_remove_article:
  assumes "leading_article s"
  shows "length (remove_article s) < length s"
proof -
  consider (the) "article_at_start ''the'' s"
    | (a) "\<not> article_at_start ''the'' s" "article_at_start ''a'' s"
    | (an) "\<not> article_at_start ''the'' s" "\<not> article_at_start ''a'' s" "article_at_start ''an'' s"
    using assms by (auto simp: leading_article_def)
  then show ?thesis
  proof cases
    case the
    then show ?thesis
      using length_after_article [of "''the''" s] by (simp add: remove_article_def eval_nat_numeral)
  next
    case a
    then show ?thesis
      using length_after_article [of "''a''" s] by (simp add: remove_article_def eval_nat_numeral)
  next
    case an
    then show ?thesis
      using length_after_article [of "''an''" s] by (simp add: remove_article_def eval_nat_numeral)
  qed
qed

lemma normalize_title_twice:
  "normalize_title (normalize_title title) = normalize_title title
     \<longleftrightarrow> \<not> leading_article (normalize_title title)"
proof -
  define y where "y = normalize_title title"
  have chars: "\<forall>c \<in> set y. normal_char c"
    by (simp add: y_def normalize_title_chars)
  have tr: "trimmed y" by (simp add: y_def normalize_title_trimmed)
  have sp: "single_spaced False y" by (simp add: y_def normalize_title_single_spaced)
  have "normalize_title y = y \<longleftrightarrow> \<not> leading_article y"
  proof (cases "y = []")
    case True
    then show ?thesis
      by (simp add: normalize_title_def leading_article_def article_at_start_def)
  next
    case False
    have nf: "normalize_title y = strip (collapse_spaces False (remove_article y))"
      using chars tr sp False by (rule normalize_title_of_normal)
    show ?thesis
    proof (cases "leading_article y")
      case True
      have "length (normalize_title y) \<le> length (remove_article y)"
        unfolding nf
        by (rule order_trans [OF length_strip length_collapse_spaces])
      also have "\<dots> < length y" using True by (rule length_remove_article)
      finally have "normalize_title y \<noteq> y" by auto
      with True show ?thesis by simp
    next
      case False
      then have "remove_article y = y"
        by (simp add: remove_article_def leading_article_def)
      then have "normalize_title y = y"
        using nf sp tr by (simp add: single_spaced_collapse_id trimmed_strip_id)
      with False show ?thesis by simp
    qed
  qed
  then show ?thesis by (simp add: y_def)
qed

text \<open>
  C4 (as amended). Normalizing a normalized title changes it exactly when the normalized
  title still begins with ``the'', ``a'' or ``an'' followed by a space: the pattern removes
  one leading article, and a second one, or one that only punctuation or whitespace kept
  from the start, is still there afterwards. For every other title normalization is
  idempotent. And ``THE BUCKET LIST'' and ``Bucket List'' normalize to the same string.
\<close>

theorem normalize_title_idempotent_iff:
  "(normalize_title (normalize_title x) = normalize_title x
      \<longleftrightarrow> \<not> leading_article (normalize_title x)) \<and>
   normalize_title ''THE BUCKET LIST'' = normalize_title ''Bucket List''"
proof
  show "normalize_title (normalize_title x) = normalize_title x
      \<longleftrightarrow> \<not> leading_article (normalize_title x)"
    by (rule normalize_title_twice)
  show "normalize_title ''THE BUCKET LIST'' = normalize_title ''Bucket List''"
    by code_simp
qed

theorem normalize_title_idempotent_iff_witness:
  "\<not> leading_article (normalize_title ''Juno (2007)'') \<and>
   normalize_title (normalize_title ''Juno (2007)'') = normalize_title ''Juno (2007)''"
proof -
  have h: "\<not> leading_article (normalize_title ''Juno (2007)'')"
    by code_simp
  with normalize_title_idempotent_iff [of "''Juno (2007)''"] show ?thesis
    by blast
qed

text \<open>
  C4 as stated fails: ``The A List'' normalizes to ``a list'', and that to ``list''.
\<close>

theorem normalize_title_not_idempotent:
  "normalize_title (normalize_title ''The A List'') \<noteq> normalize_title ''The A List''"
  by code_simp

section \<open>Properties of title matching\<close>



section \<open>Properties of the retrying client\<close>

lemma retry_frame:
  "entries (snd (retry call n w)) = entries w \<and>
   last_updated (snd (retry call n w)) = last_updated w \<and>
   requests w < requests (snd (retry call n w)) \<and>
   requests (snd (retry call n w)) \<le> requests w + (stop_after_attempt - n) + 1"
proof (induction call n w rule: retry.induct)
  case (1 call attempt_number w)
  show ?case
  proof (cases "call (requests w)")
    case (Inr v)
    then show ?thesis by (simp add: retry.simps [of call attempt_number w])
  next
    case (Inl e)
    show ?thesis
    proof (cases "RETRYABLE_EXCEPTIONS e \<and> attempt_number < stop_after_attempt")
      case True
      with Inl "1.IH" [OF refl refl Inl True] show ?thesis
        by (simp add: retry.simps [of call attempt_number w]) arith
    next
      case False
      with Inl show ?thesis
        by (auto simp add: retry.simps [of call attempt_number w])
    qed
  qed
qed

lemma retry_success:
  "call (requests w) = Inr v \<Longrightarrow> retry call n w = (Inr v, w\<lparr>requests := requests w + 1\<rparr>)"
  by (simp add: retry.simps [of call n w])

lemma retry_permanent:
  "call (requests w) = Inl e \<Longrightarrow> \<not> RETRYABLE_EXCEPTIONS e \<Longrightarrow>
   retry call n w = (Inl e, w\<lparr>requests := requests w + 1\<rparr>)"
  by (simp add: retry.simps [of call n w])

lemma retry_again:
  "call (requests w) = Inl e \<Longrightarrow> RETRYABLE_EXCEPTIONS e \<Longrightarrow> n < stop_after_attempt \<Longrightarrow>
   retry call n w =
     retry call (n + 1) (w\<lparr>requests := requests w + 1, log := log w @ [Warning_retrying e]\<rparr>)"
  by (simp add: retry.simps [of call n w])

lemma retry_last:
  "call (requests w) = Inl e \<Longrightarrow> \<not> n < stop_after_attempt \<Longrightarrow>
   retry call n w = (Inl e, w\<lparr>requests := requests w + 1\<rparr>)"
  by (simp add: retry.simps [of call n w])

lemma retry_exhausted:
  assumes "call (requests w) = Inl e1" "RETRYABLE_EXCEPTIONS e1"
    and "call (requests w + 1) = Inl e2" "RETRYABLE_EXCEPTIONS e2"
    and "call (requests w + 2) = Inl e3"
  shows "retry call 1 w =
     (Inl e3, w\<lparr>requests := requests w + 3,
                 log := log w @ [Warning_retrying e1, Warning_retrying e2]\<rparr>)"
  using assms by (simp add: retry.simps [of call] stop_after_attempt_def)

lemma RETRYABLE_EXCEPTIONS_iff:
  "RETRYABLE_EXCEPTIONS e \<longleftrightarrow>
     e = ConnectError \<or> e = TimeoutException \<or> e = ConnectionError \<or> e = TimeoutError \<or>
     (\<exists>status_code. e = HTTPStatusError status_code)"
  by (cases e) auto


text \<open>
  C9 (as amended). Both client calls make at most three attempts. An attempt that fails
  with a connection error, a timeout or an \<open>HTTPStatusError\<close> is retried, and
  \<^verbatim>\<open>raise_for_status\<close> raises that error for every status code outside 200 to 299, the
  client errors 401 and 404 among them. Only an exception outside these classes surfaces
  at once, after one request. When all three attempts fail, the error of the third
  reaches the caller.
\<close>

theorem retry_policy:
  "(RETRYABLE_EXCEPTIONS e \<longleftrightarrow>
      e = ConnectError \<or> e = TimeoutException \<or> e = ConnectionError \<or> e = TimeoutError \<or>
      (\<exists>status_code. e = HTTPStatusError status_code)) \<and>
   (search_movie api n title = Inr (status_code, results) \<and>
      \<not> (200 \<le> status_code \<and> status_code \<le> 299) \<longrightarrow>
      search_tmdb_call api title n = Inl (HTTPStatusError status_code)) \<and>
   (search_tmdb_call api title (requests w) = Inl e \<and> \<not> RETRYABLE_EXCEPTIONS e \<longrightarrow>
      search_tmdb api title w = (Inl e, w\<lparr>requests := requests w + 1\<rparr>)) \<and>
   (search_tmdb_call api title (requests w) = Inl e1 \<and> RETRYABLE_EXCEPTIONS e1 \<and>
    search_tmdb_call api title (requests w + 1) = Inl e2 \<and> RETRYABLE_EXCEPTIONS e2 \<and>
    search_tmdb_call api title (requests w + 2) = Inl e3 \<longrightarrow>
      search_tmdb api title w =
        (Inl e3, w\<lparr>requests := requests w + 3,
                    log := log w @ [Warning_retrying e1, Warning_retrying e2]\<rparr>)) \<and>
   requests (snd (search_tmdb api title w)) \<le> requests w + 3 \<and>
   (movie api n movie_id = Inr (status_code, details) \<and>
      \<not> (200 \<le> status_code \<and> status_code \<le> 299) \<longrightarrow>
      get_movie_details_call api movie_id n = Inl (HTTPStatusError status_code)) \<and>
   (get_movie_details_call api movie_id (requests w) = Inl e \<and> \<not> RETRYABLE_EXCEPTIONS e \<longrightarrow>
      get_movie_details api movie_id w = (Inl e, w\<lparr>requests := requests w + 1\<rparr>)) \<and>
   (get_movie_details_call api movie_id (requests w) = Inl e1 \<and> RETRYABLE_EXCEPTIONS e1 \<and>
    get_movie_details_call api movie_id (requests w + 1) = Inl e2 \<and> RETRYABLE_EXCEPTIONS e2 \<and>
    get_movie_details_call api movie_id (requests w + 2) = Inl e3 \<longrightarrow>
      get_movie_details api movie_id w =
        (Inl e3, w\<lparr>requests := requests w + 3,
                    log := log w @ [Warning_retrying e1, Warning_retrying e2]\<rparr>)) \<and>
   requests (snd (get_movie_details api movie_id w)) \<le> requests w + 3"
proof (intro conjI impI)
  show "RETRYABLE_EXCEPTIONS e \<longleftrightarrow>
      e = ConnectError \<or> e = TimeoutException \<or> e = ConnectionError \<or> e = TimeoutError \<or>
      (\<exists>status_code. e = HTTPStatusError status_code)"
    by (rule RETRYABLE_EXCEPTIONS_iff)
  show "search_tmdb_call api title n = Inl (HTTPStatusError status_code)"
    if "search_movie api n title = Inr (status_code, results) \<and>
      \<not> (200 \<le> status_code \<and> status_code \<le> 299)"
    using that by (auto simp: search_tmdb_call_def raise_for_status_def)
  show "get_movie_details_call api movie_id n = Inl (HTTPStatusError status_code)"
    if "movie api n movie_id = Inr (status_code, details) \<and>
      \<not> (200 \<le> status_code \<and> status_code \<le> 299)"
    using that by (auto simp: get_movie_details_call_def raise_for_status_def)
  show "search_tmdb api title w = (Inl e, w\<lparr>requests := requests w + 1\<rparr>)"
    if "search_tmdb_call api title (requests w) = Inl e \<and> \<not> RETRYABLE_EXCEPTIONS e"
    using that by (simp add: search_tmdb_def retry_permanent)
  show "get_movie_details api movie_id w = (Inl e, w\<lparr>requests := requests w + 1\<rparr>)"
    if "get_movie_details_call api movie_id (requests w) = Inl e \<and> \<not> RETRYABLE_EXCEPTIONS e"
    using that by (simp add: get_movie_details_def retry_permanent)
  show "search_tmdb api title w =
        (Inl e3, w\<lparr>requests := requests w + 3,
                    log := log w @ [Warning_retrying e1, Warning_retrying e2]\<rparr>)"
    if "search_tmdb_call api title (requests w) = Inl e1 \<and> RETRYABLE_EXCEPTIONS e1 \<and>
    search_tmdb_call api title (requests w + 1) = Inl e2 \<and> RETRYABLE_EXCEPTIONS e2 \<and>
    search_tmdb_call api title (requests w + 2) = Inl e3"
    unfolding search_tmdb_def using that by (intro retry_exhausted) simp_all
  show "get_movie_details api movie_id w =
        (Inl e3, w\<lparr>requests := requests w + 3,
                    log := log w @ [Warning_retrying e1, Warning_retrying e2]\<rparr>)"
    if "get_movie_details_call api movie_id (requests w) = Inl e1 \<and> RETRYABLE_EXCEPTIONS e1 \<and>
    get_movie_details_call api movie_id (requests w + 1) = Inl e2 \<and> RETRYABLE_EXCEPTIONS e2 \<and>
    get_movie_details_call api movie_id (requests w + 2) = Inl e3"
    unfolding get_movie_details_def using that by (intro retry_exhausted) simp_all
  show "requests (snd (search_tmdb api title w)) \<le> requests w + 3"
    using retry_frame [of "search_tmdb_call api title" 1 w]
    by (simp add: search_tmdb_def stop_after_attempt_def)
  show "requests (snd (get_movie_details api movie_id w)) \<le> requests w + 3"
    using retry_frame [of "get_movie_details_call api movie_id" 1 w]
    by (simp add: get_movie_details_def stop_after_attempt_def)
qed

theorem retry_policy_witness:
  "search_tmdb (always_status 503) ''Juno'' idle =
     (Inl (HTTPStatusError 503),
      idle\<lparr>requests := 3,
           log := [Warning_retrying (HTTPStatusError 503), Warning_retrying (HTTPStatusError 503)]\<rparr>)"
proof -
  have call: "search_tmdb_call (always_status 503) ''Juno'' n = Inl (HTTPStatusError 503)" for n
    by (simp add: search_tmdb_call_def always_status_def raise_for_status_def)
  from retry_policy [of "HTTPStatusError 503" "always_status 503" 0 "''Juno''" 503 "[]" idle
      "HTTPStatusError 503" "HTTPStatusError 503" "HTTPStatusError 503"]
  show ?thesis
    by (simp add: call idle_def)
qed

text \<open>
  C9 as stated fails: a service that answers 404 to every request is asked three times.
\<close>

theorem client_error_is_retried:
  "search_tmdb (always_status 404) ''Juno'' idle =
     (Inl (HTTPStatusError 404),
      idle\<lparr>requests := 3,
           log := [Warning_retrying (HTTPStatusError 404), Warning_retrying (HTTPStatusError 404)]\<rparr>)"
proof -
  have call: "search_tmdb_call (always_status 404) ''Juno'' n = Inl (HTTPStatusError 404)" for n
    by (simp add: search_tmdb_call_def always_status_def raise_for_status_def)
  show ?thesis
    by (simp add: search_tmdb_def retry.simps [of "search_tmdb_call (always_status 404) ''Juno''"]
        stop_after_attempt_def call idle_def)
qed


section \<open>Properties of the decision engine\<close>

text \<open>
  What the client calls and the loop leave alone: the cache. Each client call sends at
  least one request.
\<close>

lemma search_tmdb_frame:
  "entries (snd (search_tmdb api title w)) = entries w \<and>
   last_updated (snd (search_tmdb api title w)) = last_updated w \<and>
   requests w < requests (snd (search_tmdb api title w))"
  using retry_frame [of "search_tmdb_call api title" 1 w] by (simp add: search_tmdb_def)

lemma get_movie_details_frame:
  "entries (snd (get_movie_details api movie_id w)) = entries w \<and>
   last_updated (snd (get_movie_details api movie_id w)) = last_updated w \<and>
   requests w < requests (snd (get_movie_details api movie_id w))"
  using retry_frame [of "get_movie_details_call api movie_id" 1 w]
  by (simp add: get_movie_details_def)

lemma detailed_status_frame:
  "entries (snd (detailed_status api result w)) = entries w \<and>
   last_updated (snd (detailed_status api result w)) = last_updated w \<and>
   requests w < requests (snd (detailed_status api result w))"
  using get_movie_details_frame [of api "result_id result" w]
  by (auto simp: detailed_status_def split: prod.splits sum.splits)

lemma check_results_frame:
  "entries (snd (check_results api title year_context results w)) = entries w \<and>
   last_updated (snd (check_results api title year_context results w)) = last_updated w \<and>
   requests w \<le> requests (snd (check_results api title year_context results w))"
proof (induction results arbitrary: w)
  case Nil
  then show ?case by simp
next
  case (Cons result results)
  obtain status w1 where d: "detailed_status api result w = (status, w1)"
    by (cases "detailed_status api result w") auto
  from detailed_status_frame [of api result w] d
  have w1: "entries w1 = entries w" "last_updated w1 = last_updated w" "requests w < requests w1"
    by simp_all
  show ?case
    using Cons.IH [of w] Cons.IH [of w1] w1 d
    by (auto simp: less_imp_le dest: less_le_trans)
qed

lemma store_entry_simps [simp]:
  "entries (store_entry now title entry w) = (entries w)(normalize_title title \<mapsto> entry)"
  "last_updated (store_entry now title entry w) = Some now"
  "requests (store_entry now title entry w) = requests w"
  "log (store_entry now title entry w) = log w"
  by (simp_all add: store_entry_def save_cache_def)

text \<open>The two ways past the cache check.\<close>

lemma check_if_produced_hit:
  assumes "get_cached_result now title w = Inr (Some cached)" and "cached \<noteq> []"
  shows "check_if_produced api now title year_context w =
     (Inr (dict_get cached ''is_produced'' (JBool False),
           CACHED (dict_get cached ''title'' (JStr ''Unknown''))
                  (dict_get cached ''release_date'' (JStr ''N/A''))
                  (dict_get cached ''status'' (JStr ''Unknown'')),
           Entry cached),
      w)"
  using assms by (simp add: check_if_produced_def)

lemma check_if_produced_requests:
  assumes "get_cached_result now title w = Inr cached" and "cached = None \<or> cached = Some []"
  shows "requests w < requests (snd (check_if_produced api now title year_context w))"
proof -
  define w0 where "w0 = w\<lparr>log := log w @ [Info_searching title]\<rparr>"
  obtain r w1 where s: "search_tmdb api title w0 = (r, w1)"
    by (cases "search_tmdb api title w0") auto
  from search_tmdb_frame [of api title w0] s have w1: "requests w < requests w1"
    by (simp add: w0_def)
  show ?thesis
  proof (cases r)
    case (Inl e)
    with assms s w1 show ?thesis
      by (auto simp: check_if_produced_def w0_def)
  next
    case (Inr results)
    obtain found w2 where c: "check_results api title year_context results w1 = (found, w2)"
      by (cases "check_results api title year_context results w1") auto
    from check_results_frame [of api title year_context results w1] c
    have "requests w1 \<le> requests w2" by simp
    with w1 have "requests w < requests w2" by simp
    with assms s Inr c w1 show ?thesis
      by (auto simp: check_if_produced_def w0_def Let_def split: option.splits prod.splits)
  qed
qed

text \<open>The example services and states, evaluated once.\<close>

lemma normalize_juno: "normalize_title ''Juno'' = ''juno''"
  by code_simp


lemma search_tmdb_first_answer:
  "search_movie api (requests w) title = Inr (200, results) \<Longrightarrow>
   search_tmdb api title w = (Inr results, w\<lparr>requests := requests w + 1\<rparr>)"
  by (simp add: search_tmdb_def retry_success search_tmdb_call_def raise_for_status_def)

lemma search_tmdb_unreachable:
  "search_tmdb unreachable title w =
     (Inl ConnectError,
      w\<lparr>requests := requests w + 3,
        log := log w @ [Warning_retrying ConnectError, Warning_retrying ConnectError]\<rparr>)"
  unfolding search_tmdb_def
  by (rule retry_exhausted) (simp_all add: search_tmdb_call_def unreachable_def)


lemma cache_miss_idle: "cache_miss now title idle"
  by (simp add: cache_miss_def get_cached_result_def idle_def)


lemma juno_fields [simp]:
  "result_title (juno d) = ''Juno''" "result_release_date (juno d) = d" "result_id (juno d) = Some 7326"
  by (simp_all add: juno_def)

lemma release_year_2007: "release_year ''2007-12-05'' = Some 2007"
  by code_simp








text \<open>
  C6. An entry stamped \<open>checked_at\<close> is returned by the lookup exactly when
  \<open>now - checked_at\<close> is at most 30 days. Past 30 days (at 31, say) the lookup answers as
  it does for a cache without the entry, and \<open>check_if_produced\<close> sends a request. Up to
  30 days (at 29, say) \<open>check_if_produced\<close> returns the stored verdict with the entry and
  leaves the state as it is: no request is sent.
\<close>

theorem cache_entry_expires_after_30_days:
  "entries w (normalize_title title) = Some entry \<and>
   dict_get entry ''checked_at'' JNull = JDate checked_at \<Longrightarrow>
   get_cached_result now title w =
     Inr (if now - checked_at \<le> timedelta_days 30 then Some entry else None) \<and>
   (now - checked_at > timedelta_days 30 \<longrightarrow>
      get_cached_result now title w =
        get_cached_result now title (w\<lparr>entries := (entries w)(normalize_title title := None)\<rparr>) \<and>
      requests w < requests (snd (check_if_produced api now title year_context w))) \<and>
   (now - checked_at \<le> timedelta_days 30 \<longrightarrow>
      check_if_produced api now title year_context w =
        (Inr (dict_get entry ''is_produced'' (JBool False),
              CACHED (dict_get entry ''title'' (JStr ''Unknown''))
                     (dict_get entry ''release_date'' (JStr ''N/A''))
                     (dict_get entry ''status'' (JStr ''Unknown'')),
              Entry entry),
         w))"
proof -
  assume a: "entries w (normalize_title title) = Some entry \<and>
   dict_get entry ''checked_at'' JNull = JDate checked_at"
  have lookup: "get_cached_result now title w =
     Inr (if now - checked_at \<le> timedelta_days 30 then Some entry else None)" for now
    using a by (simp add: get_cached_result_def fromisoformat_def CACHE_EXPIRY_DAYS_def Let_def)
  have ne: "entry \<noteq> []"
    using a by (auto simp: dict_get_def)
  have old: "requests w < requests (snd (check_if_produced api now title year_context w))"
    "get_cached_result now title w =
        get_cached_result now title (w\<lparr>entries := (entries w)(normalize_title title := None)\<rparr>)"
    if "now - checked_at > timedelta_days 30"
  proof -
    from that have miss: "get_cached_result now title w = Inr None"
      by (simp add: lookup)
    then show "requests w < requests (snd (check_if_produced api now title year_context w))"
      by (rule check_if_produced_requests) simp
    show "get_cached_result now title w =
        get_cached_result now title (w\<lparr>entries := (entries w)(normalize_title title := None)\<rparr>)"
      by (simp add: miss) (simp add: get_cached_result_def)
  qed
  have fresh: "check_if_produced api now title year_context w =
        (Inr (dict_get entry ''is_produced'' (JBool False),
              CACHED (dict_get entry ''title'' (JStr ''Unknown''))
                     (dict_get entry ''release_date'' (JStr ''N/A''))
                     (dict_get entry ''status'' (JStr ''Unknown'')),
              Entry entry),
         w)" if "now - checked_at \<le> timedelta_days 30"
  proof -
    from that have "get_cached_result now title w = Inr (Some entry)"
      by (simp add: lookup)
    then show ?thesis using ne by (rule check_if_produced_hit)
  qed
  from lookup old fresh show ?thesis by blast
qed


theorem cache_entry_expires_after_30_days_witness:
  "get_cached_result (timedelta_days 31) ''Juno''
      (cached_juno [(''is_produced'', JBool True), (''checked_at'', JDate 0)]) = Inr None \<and>
   check_if_produced unreachable (timedelta_days 29) ''Juno'' None
      (cached_juno [(''is_produced'', JBool True), (''checked_at'', JDate 0)]) =
     (Inr (JBool True, CACHED (JStr ''Unknown'') (JStr ''N/A'') (JStr ''Unknown''),
           Entry [(''is_produced'', JBool True), (''checked_at'', JDate 0)]),
      cached_juno [(''is_produced'', JBool True), (''checked_at'', JDate 0)])"
proof -
  define entry where "entry = [(''is_produced'', JBool True), (''checked_at'', JDate 0)]"
  have h: "entries (cached_juno entry) (normalize_title ''Juno'') = Some entry \<and>
      dict_get entry ''checked_at'' JNull = JDate 0"
    by (simp add: cached_juno_def normalize_juno dict_get_def entry_def)
  have d: "dict_get entry ''is_produced'' (JBool False) = JBool True"
    "dict_get entry ''title'' (JStr ''Unknown'') = JStr ''Unknown''"
    "dict_get entry ''release_date'' (JStr ''N/A'') = JStr ''N/A''"
    "dict_get entry ''status'' (JStr ''Unknown'') = JStr ''Unknown''"
    by (simp_all add: dict_get_def entry_def)
  from cache_entry_expires_after_30_days [OF h, of "timedelta_days 31" unreachable None]
    cache_entry_expires_after_30_days [OF h, of "timedelta_days 29" unreachable None]
  show ?thesis
    unfolding entry_def [symmetric] by (simp add: d timedelta_days_def)
qed

text \<open>
  C7. When the lookup misses and the search returns an empty list, \<open>check_if_produced\<close>
  stores the entry \<open>no_films_entry\<close> (\<open>is_produced\<close> false, \<open>confidence\<close> high) under the
  normalized title and returns \<open>is_produced\<close> false; only the search has sent requests. A
  second call for the title within 30 days, whatever the service and the year context,
  returns the stored verdict and leaves the state as it is: no request is sent.
\<close>

theorem zero_results_cached_negative:
  "cache_miss now title w \<and>
   search_tmdb api title (w\<lparr>log := log w @ [Info_searching title]\<rparr>) = (Inr [], w1) \<Longrightarrow>
   check_if_produced api now title year_context w =
     (Inr (JBool False, NOT_PRODUCED_no_films, Entry (no_films_entry now)),
      store_entry now title (no_films_entry now) w1) \<and>
   entries (store_entry now title (no_films_entry now) w1) (normalize_title title) =
     Some (no_films_entry now) \<and>
   dict_get (no_films_entry now) ''is_produced'' JNull = JBool False \<and>
   dict_get (no_films_entry now) ''confidence'' JNull = JStr ''high'' \<and>
   (now' - now \<le> timedelta_days 30 \<longrightarrow>
      check_if_produced api' now' title year_context' (store_entry now title (no_films_entry now) w1) =
        (Inr (JBool False, CACHED JNull JNull JNull, Entry (no_films_entry now)),
         store_entry now title (no_films_entry now) w1))"
proof -
  assume a: "cache_miss now title w \<and>
   search_tmdb api title (w\<lparr>log := log w @ [Info_searching title]\<rparr>) = (Inr [], w1)"
  define w2 where "w2 = store_entry now title (no_films_entry now) w1"
  have first: "check_if_produced api now title year_context w =
     (Inr (JBool False, NOT_PRODUCED_no_films, Entry (no_films_entry now)), w2)"
    using a by (auto simp: cache_miss_def check_if_produced_def no_films_entry_def w2_def Let_def)
  have stored: "entries w2 (normalize_title title) = Some (no_films_entry now)"
    by (simp add: w2_def)
  have fields: "dict_get (no_films_entry now) ''is_produced'' JNull = JBool False"
    "dict_get (no_films_entry now) ''confidence'' JNull = JStr ''high''"
    "dict_get (no_films_entry now) ''checked_at'' JNull = JDate now"
    "dict_get (no_films_entry now) ''is_produced'' (JBool False) = JBool False"
    "dict_get (no_films_entry now) ''title'' (JStr ''Unknown'') = JNull"
    "dict_get (no_films_entry now) ''release_date'' (JStr ''N/A'') = JNull"
    "dict_get (no_films_entry now) ''status'' (JStr ''Unknown'') = JNull"
    "no_films_entry now \<noteq> []"
    by (simp_all add: dict_get_def no_films_entry_def)
  have second: "check_if_produced api' now' title year_context' w2 =
        (Inr (JBool False, CACHED JNull JNull JNull, Entry (no_films_entry now)), w2)"
    if "now' - now \<le> timedelta_days 30"
  proof -
    have "get_cached_result now' title w2 = Inr (Some (no_films_entry now))"
      using that stored fields(3)
      by (simp add: get_cached_result_def fromisoformat_def CACHE_EXPIRY_DAYS_def Let_def)
    from check_if_produced_hit [OF this fields(8)] show ?thesis
      by (simp add: fields)
  qed
  from first stored fields(1,2) second show ?thesis
    unfolding w2_def by blast
qed

theorem zero_results_cached_negative_witness:
  "check_if_produced (always_status 200) 0 ''Juno'' None idle =
     (Inr (JBool False, NOT_PRODUCED_no_films, Entry (no_films_entry 0)),
      store_entry 0 ''Juno'' (no_films_entry 0)
        (idle\<lparr>requests := 1, log := [Info_searching ''Juno'']\<rparr>)) \<and>
   check_if_produced unreachable (timedelta_days 30) ''Juno'' (Some 2006)
      (store_entry 0 ''Juno'' (no_films_entry 0)
        (idle\<lparr>requests := 1, log := [Info_searching ''Juno'']\<rparr>)) =
     (Inr (JBool False, CACHED JNull JNull JNull, Entry (no_films_entry 0)),
      store_entry 0 ''Juno'' (no_films_entry 0)
        (idle\<lparr>requests := 1, log := [Info_searching ''Juno'']\<rparr>))"
proof -
  have s: "search_tmdb (always_status 200) ''Juno'' (idle\<lparr>log := log idle @ [Info_searching ''Juno'']\<rparr>) =
      (Inr [], idle\<lparr>requests := 1, log := [Info_searching ''Juno'']\<rparr>)"
    by (simp add: search_tmdb_first_answer always_status_def) (simp add: idle_def)
  from zero_results_cached_negative [of 0 "''Juno''" idle "always_status 200"
      "idle\<lparr>requests := 1, log := [Info_searching ''Juno'']\<rparr>" None "timedelta_days 30"
      unreachable "Some 2006"] s cache_miss_idle
  show ?thesis by simp
qed

text \<open>
  C10 (as amended). An entry whose \<open>checked_at\<close> is missing, null or empty is returned
  by the lookup at every time \<open>now\<close>. If the entry is not the empty dictionary,
  \<open>check_if_produced\<close> returns its verdict and leaves the state as it is, so no request is
  ever sent for the title.
\<close>

theorem undated_entry_never_expires:
  "entries w (normalize_title title) = Some entry \<and>
   \<not> truthy (dict_get entry ''checked_at'' JNull) \<Longrightarrow>
   get_cached_result now title w = Inr (Some entry) \<and>
   (entry \<noteq> [] \<longrightarrow>
      check_if_produced api now title year_context w =
        (Inr (dict_get entry ''is_produced'' (JBool False),
              CACHED (dict_get entry ''title'' (JStr ''Unknown''))
                     (dict_get entry ''release_date'' (JStr ''N/A''))
                     (dict_get entry ''status'' (JStr ''Unknown'')),
              Entry entry),
         w))"
proof -
  assume a: "entries w (normalize_title title) = Some entry \<and>
   \<not> truthy (dict_get entry ''checked_at'' JNull)"
  then have lookup: "get_cached_result now title w = Inr (Some entry)"
    by (simp add: get_cached_result_def Let_def)
  with check_if_produced_hit [of now title w entry api year_context] show ?thesis
    by blast
qed

theorem undated_entry_never_expires_witness:
  "check_if_produced unreachable (timedelta_days 3650) ''Juno'' None
      (cached_juno [(''is_produced'', JBool True), (''checked_at'', JStr [])]) =
     (Inr (JBool True, CACHED (JStr ''Unknown'') (JStr ''N/A'') (JStr ''Unknown''),
           Entry [(''is_produced'', JBool True), (''checked_at'', JStr [])]),
      cached_juno [(''is_produced'', JBool True), (''checked_at'', JStr [])])"
proof -
  define entry where "entry = [(''is_produced'', JBool True), (''checked_at'', JStr [])]"
  have h: "entries (cached_juno entry) (normalize_title ''Juno'') = Some entry \<and>
      \<not> truthy (dict_get entry ''checked_at'' JNull)"
    by (simp add: cached_juno_def normalize_juno dict_get_def entry_def)
  have d: "dict_get entry ''is_produced'' (JBool False) = JBool True"
    "dict_get entry ''title'' (JStr ''Unknown'') = JStr ''Unknown''"
    "dict_get entry ''release_date'' (JStr ''N/A'') = JStr ''N/A''"
    "dict_get entry ''status'' (JStr ''Unknown'') = JStr ''Unknown''"
    "entry \<noteq> []"
    by (simp_all add: dict_get_def entry_def)
  from undated_entry_never_expires [OF h, of "timedelta_days 3650" unreachable None]
  show ?thesis
    unfolding entry_def [symmetric] by (simp add: d)
qed

text \<open>
  C10 as stated fails for an entry that is the empty dictionary: the lookup returns it,
  \<^verbatim>\<open>if cached:\<close> is false for it, and the search is sent.
\<close>

theorem empty_entry_does_not_short_circuit:
  "get_cached_result 0 ''Juno'' (cached_juno []) = Inr (Some []) \<and>
   requests (snd (check_if_produced (always_status 200) 0 ''Juno'' None (cached_juno []))) = 1"
proof -
  have l: "get_cached_result 0 ''Juno'' (cached_juno []) = Inr (Some [])"
    by (simp add: get_cached_result_def cached_juno_def normalize_juno dict_get_def)
  have s: "search_tmdb (always_status 200) ''Juno''
        (cached_juno []\<lparr>log := log (cached_juno []) @ [Info_searching ''Juno'']\<rparr>) =
      (Inr [], cached_juno []\<lparr>log := log (cached_juno []) @ [Info_searching ''Juno''],
                 requests := 1\<rparr>)"
    by (simp add: search_tmdb_first_answer always_status_def) (simp add: cached_juno_def idle_def)
  show ?thesis
    by (simp add: l check_if_produced_def s Let_def)
qed

text \<open>
  C2, on the code. When the search fails after its retries, \<open>check_if_produced\<close> returns
  \<open>is_produced\<close> false with the error as reason, the cache is as it was, and \<open>main\<close>
  exits with code 0, the code of ``not produced''.
\<close>

theorem search_failure_exits_0:
  "api_key = Some key \<and> key \<noteq> [] \<and>
   \<not> list_ex (\<lambda>force_title. normalize_title force_title = normalize_title title) (force_analyze overrides) \<and>
   \<not> list_ex (\<lambda>force_title. normalize_title force_title = normalize_title title) (force_skip overrides) \<and>
   cache_miss now title w \<and>
   search_tmdb api title (w\<lparr>log := log w @ [Info_searching title]\<rparr>) = (Inl e, w1) \<Longrightarrow>
   check_if_produced api now title year_context w =
     (Inr (JBool False, ERROR_search_failed e, Error_details e),
      w1\<lparr>log := log w1 @ [Error_search_failed e]\<rparr>) \<and>
   entries w1 = entries w \<and> last_updated w1 = last_updated w \<and>
   main api now api_key overrides title year_context w =
     (0, w1\<lparr>log := log w1 @ [Error_search_failed e]\<rparr>)"
proof -
  assume a: "api_key = Some key \<and> key \<noteq> [] \<and>
   \<not> list_ex (\<lambda>force_title. normalize_title force_title = normalize_title title) (force_analyze overrides) \<and>
   \<not> list_ex (\<lambda>force_title. normalize_title force_title = normalize_title title) (force_skip overrides) \<and>
   cache_miss now title w \<and>
   search_tmdb api title (w\<lparr>log := log w @ [Info_searching title]\<rparr>) = (Inl e, w1)"
  then have c: "check_if_produced api now title year_context w =
     (Inr (JBool False, ERROR_search_failed e, Error_details e),
      w1\<lparr>log := log w1 @ [Error_search_failed e]\<rparr>)"
    by (auto simp: cache_miss_def check_if_produced_def)
  from a search_tmdb_frame [of api title "w\<lparr>log := log w @ [Info_searching title]\<rparr>"]
  have f: "entries w1 = entries w" "last_updated w1 = last_updated w"
    by simp_all
  from a c have "main api now api_key overrides title year_context w =
     (0, w1\<lparr>log := log w1 @ [Error_search_failed e]\<rparr>)"
    by (simp add: main_def Let_def)
  with c f show ?thesis by simp
qed

theorem search_failure_exits_0_witness:
  "main unreachable 0 (Some ''key'') no_overrides ''Juno'' None idle =
     (0, idle\<lparr>requests := 3,
              log := [Info_searching ''Juno'', Warning_retrying ConnectError,
                      Warning_retrying ConnectError, Error_search_failed ConnectError]\<rparr>)"
proof -
  have s: "search_tmdb unreachable ''Juno'' (idle\<lparr>log := log idle @ [Info_searching ''Juno'']\<rparr>) =
      (Inl ConnectError,
       idle\<lparr>requests := 3,
            log := [Info_searching ''Juno'', Warning_retrying ConnectError,
                    Warning_retrying ConnectError]\<rparr>)"
    by (simp add: search_tmdb_unreachable) (simp add: idle_def)
  from search_failure_exits_0 [of "Some ''key''" "''key''" "''Juno''" no_overrides 0 idle
      unreachable ConnectError _ None] s cache_miss_idle
  show ?thesis by (simp add: no_overrides_def)
qed







section \<open>Properties of main\<close>

text \<open>
  C1 (as amended). With an API key set, a title that is, after normalization, in both
  \<open>force_analyze\<close> and \<open>force_skip\<close> gets exit code 0, the code of ``not produced'':
  \<open>main\<close> checks \<open>force_analyze\<close> first. Nothing is looked up and nothing is stored.
\<close>

theorem force_analyze_wins:
  "api_key = Some key \<and> key \<noteq> [] \<and>
   normalize_title title \<in> normalize_title ` set (force_analyze overrides) \<and>
   normalize_title title \<in> normalize_title ` set (force_skip overrides) \<Longrightarrow>
   main api now api_key overrides title year_context w = (0, w)"
  by (auto simp: main_def Let_def list_ex_iff)



theorem force_analyze_wins_witness:
  "main unreachable 0 (Some ''key'')
     \<lparr>force_analyze = [''The Bucket List''], force_skip = [''BUCKET LIST (2007)'']\<rparr>
     ''Bucket List'' None idle = (0, idle)"
proof -
  have n: "normalize_title ''The Bucket List'' = ''bucket list''"
    "normalize_title ''BUCKET LIST (2007)'' = ''bucket list''"
    "normalize_title ''Bucket List'' = ''bucket list''"
    by code_simp+
  from force_analyze_wins [of "Some ''key''" "''key''" "''Bucket List''"
      "\<lparr>force_analyze = [''The Bucket List''], force_skip = [''BUCKET LIST (2007)'']\<rparr>"
      unreachable 0 None idle] n
  show ?thesis by simp
qed

text \<open>
  C1 as stated fails: ``juno'' is in both lists and the exit code is 0, not 1.
\<close>

theorem force_skip_does_not_win:
  "normalize_title ''JUNO'' = normalize_title ''juno'' \<and>
   normalize_title ''Juno'' = normalize_title ''juno'' \<and>
   main unreachable 0 (Some ''key'') \<lparr>force_analyze = [''JUNO''], force_skip = [''Juno'']\<rparr>
     ''juno'' None idle = (0, idle)"
proof -
  have n: "normalize_title ''JUNO'' = ''juno''" "normalize_title ''juno'' = ''juno''"
    by code_simp+
  show ?thesis
    by (simp add: main_def n normalize_juno)
qed

end
